theory Spec2Isabelle
  imports Main
begin

section \<open>watchurl: strings and formatting\<close>

text \<open>
  Go strings are byte sequences: \<open>string\<close> (a \<open>char list\<close>) with \<open>length\<close> counting
  bytes. Go's \<open>int\<close> and \<open>time.Duration\<close> are 64-bit; indices and counts that are
  bounded by the length of a string in memory are \<open>int\<close>, durations are \<open>int\<close> with
  the wrap-around of the one addition written out (\<open>wrap64\<close>).
\<close>

definition NL :: char where
  "NL = CHR 0x0A"

definition ESC :: char where
  "ESC = CHR 0x1B"

text \<open>\<open>strings.IndexByte(s, c)\<close>: index of the first \<open>c\<close> in \<open>s\<close>, or \<open>-1\<close>.\<close>

fun IndexByte :: "string \<Rightarrow> char \<Rightarrow> int" where
  "IndexByte [] c = -1"
| "IndexByte (x # xs) c =
     (if x = c then 0
      else (let i = IndexByte xs c in if i < 0 then -1 else i + 1))"

text \<open>\<open>strings.LastIndexByte(s, c)\<close>: index of the last \<open>c\<close> in \<open>s\<close>, or \<open>-1\<close>.\<close>

fun LastIndexByte :: "string \<Rightarrow> char \<Rightarrow> int" where
  "LastIndexByte [] c = -1"
| "LastIndexByte (x # xs) c =
     (let i = LastIndexByte xs c in
      if 0 \<le> i then i + 1 else if x = c then 0 else -1)"

text \<open>
  The slice expressions \<open>s[:hi]\<close> and \<open>s[lo:]\<close>. Go panics when the bound is negative
  or beyond \<open>len(s)\<close>; the panic is \<open>None\<close>.
\<close>

definition slice_to :: "string \<Rightarrow> int \<Rightarrow> string option" where
  "slice_to s hi = (if 0 \<le> hi \<and> hi \<le> int (length s) then Some (take (nat hi) s) else None)"

definition slice_from :: "string \<Rightarrow> int \<Rightarrow> string option" where
  "slice_from s lo = (if 0 \<le> lo \<and> lo \<le> int (length s) then Some (drop (nat lo) s) else None)"

text \<open>The verb \<open>%d\<close> of \<open>fmt\<close>: decimal digits, with a sign for a negative number.\<close>

fun digits :: "nat \<Rightarrow> string" where
  "digits n = (if n < 10 then [''0123456789'' ! n] else digits (n div 10) @ [''0123456789'' ! (n mod 10)])"

declare digits.simps [simp del]

definition fmt_d :: "int \<Rightarrow> string" where
  "fmt_d i = (if i < 0 then CHR ''-'' # digits (nat (- i)) else digits (nat i))"

section \<open>The diff reporter\<close>

text \<open>
  \<open>diffmatchpatch.Diff\<close>: an operation and the text it covers. The diff algorithm itself
  (\<open>DiffMain\<close> followed by \<open>DiffCleanupSemantic\<close>) belongs to an external library and
  is a parameter of the model.
\<close>

datatype Operation = DiffDelete | DiffInsert | DiffEqual

datatype Diff = Diff (Type: Operation) (Text: string)

text \<open>
  The body of the \<open>for _, diff := range diffs\<close> loop of \<open>reportDiffs\<close>, iterated over
  the diffs. The writer \<open>w\<close> is the \<open>strings.Builder\<close> (every \<open>io.WriteString\<close> and
  \<open>fmt.Fprintf\<close> appends to it), \<open>edits\<close> the running count. \<open>None\<close> is a panic of a
  slice expression.
\<close>

fun reportDiffs_loop :: "Diff list \<Rightarrow> string \<Rightarrow> int \<Rightarrow> (string \<times> int) option" where
  "reportDiffs_loop [] w edits = Some (w, edits)"
| "reportDiffs_loop (d # ds) w edits =
     (case Type d of
        DiffInsert \<Rightarrow>
          reportDiffs_loop ds (w @ (ESC # ''[32m'') @ Text d @ (ESC # ''[0m'')) (edits + 1)
      | DiffDelete \<Rightarrow>
          reportDiffs_loop ds (w @ (ESC # ''[31m'') @ Text d @ (ESC # ''[0m'')) (edits + 1)
      | DiffEqual \<Rightarrow>
          (let firstNL = IndexByte (Text d) NL;
               lastNL = LastIndexByte (Text d) NL
           in if lastNL = firstNL then reportDiffs_loop ds (w @ Text d) edits
              else (case slice_to (Text d) firstNL of
                      None \<Rightarrow> None
                    | Some a \<Rightarrow>
                        (case slice_from (Text d) lastNL of
                           None \<Rightarrow> None
                         | Some b \<Rightarrow>
                             reportDiffs_loop ds
                               (w @ a @ (NL # ''(skipped '') @ fmt_d (lastNL - firstNL)
                                  @ ('' bytes)'' @ [NL]) @ b)
                               edits))))"

text \<open>
  \<open>reportDiffs(old, new, w)\<close>; \<open>dmp old new\<close> stands for
  \<open>dmp.DiffCleanupSemantic(dmp.DiffMain(old, new, true))\<close>.
\<close>

definition reportDiffs ::
  "(string \<Rightarrow> string \<Rightarrow> Diff list) \<Rightarrow> string \<Rightarrow> string \<Rightarrow> string \<Rightarrow> (string \<times> int) option" where
  "reportDiffs dmp old new w = reportDiffs_loop (dmp old new) w 0"

section \<open>Errors, configuration and environment\<close>

text \<open>
  Go's \<open>error\<close> values, by the kinds the program tells apart. \<open>ErrNotExist\<close> stands for
  every error that \<open>os.IsNotExist\<close> accepts; \<open>ErrContext addr e\<close> is
  \<open>fmt.Errorf("checking %s, context error: %w", addr, e)\<close>. A \<open>nil\<close> error is \<open>None\<close>.
\<close>

datatype error =
    ErrNotExist
  | ErrHomeDir
  | ErrIO string
  | ErrHTTP string
  | Canceled
  | DeadlineExceeded
  | ErrContext string error

fun os_IsNotExist :: "error option \<Rightarrow> bool" where
  "os_IsNotExist (Some ErrNotExist) = True"
| "os_IsNotExist _ = False"

text \<open>The functions of external libraries that the program calls, as parameters.\<close>

record lib =
  sha1_Sum :: "string \<Rightarrow> string"
  filepath_Join :: "string \<Rightarrow> string \<Rightarrow> string"
  filepath_Dir :: "string \<Rightarrow> string"
  html2text_FromString :: "string \<Rightarrow> error + string"
  dmp_Diff :: "string \<Rightarrow> string \<Rightarrow> Diff list"

text \<open>The flags read by the functions modelled here.\<close>

record config =
  stateDir :: string
  requestTimeout :: int
  macNotify :: bool
  macClipboard :: bool
  logFullDiff :: bool

text \<open>
  What the world outside the program does during one iteration of the loop of \<open>watch\<close>:
  whether the \<open>select\<close> receives from \<open>ctx.Done()\<close>, the raw sample behind
  \<open>rand.Int63n\<close>, the home directory, the answers of the HTTP transport, the failures
  of the file system calls (by path), and the state of the contexts when \<open>ctx.Err()\<close>
  is evaluated after \<open>diffURL\<close> has returned: the error of the shared context and the
  time \<open>diffURL\<close> took, in nanoseconds.
\<close>

record env =
  select_ctx_done :: bool
  rand_sample :: nat
  UserHomeDir :: "string option"
  http_NewRequest :: "string \<Rightarrow> error option"
  http_Do :: "string \<Rightarrow> error option"
  io_ReadAll :: "string \<Rightarrow> error + string"
  ReadFile_fault :: "string \<Rightarrow> error option"
  MkdirAll_fault :: "string \<Rightarrow> error option"
  WriteFile_fault :: "string \<Rightarrow> error option"
  parent_Err :: "error option"
  elapsed :: int

text \<open>
  The observable effects, in program order: log lines of \<open>glog\<close> (the arguments of the
  format string are kept, the formatted text is not), the \<open>fmt.Printf\<close> of the diff,
  the calls of \<open>mack\<close>, of \<open>os.MkdirAll\<close> and \<open>os.WriteFile\<close>, and of the diff library.
\<close>

datatype msg =
    MsgFetching string int int int
  | MsgChecking string error
  | MsgNoChange string
  | MsgBailing
  | MsgUpdatedFull string int string
  | MsgUpdated string int
  | MsgFirstTime string
  | MsgStored string string nat
  | MsgLoaded string string nat

datatype event =
    Glog_Info msg
  | Glog_Warning msg
  | Glog_V nat msg
  | Printf_diff string string
  | Mack_Notify string int
  | Mack_SetClipboard string
  | Sys_MkdirAll string
  | Sys_WriteFile string string
  | Dmp_DiffMain string string

text \<open>
  The state that changes: the files of the state directory (path to content), the
  timer \<open>t\<close> of \<open>watch\<close> (\<open>Some d\<close>: it will fire after \<open>d\<close>; \<open>None\<close>: it has fired and
  was not reset), and the effects so far.
\<close>

record state =
  files :: "string \<rightharpoonup> string"
  timer :: "int option"
  events :: "event list"

definition emit :: "event \<Rightarrow> state \<Rightarrow> state" where
  "emit ev s = s\<lparr>events := events s @ [ev]\<rparr>"

section \<open>The state store\<close>

definition HasPrefix :: "string \<Rightarrow> string \<Rightarrow> bool" where
  "HasPrefix s p = (take (length p) s = p)"

text \<open>\<open>strings.Replace(s, old, new, 1)\<close>: the first occurrence of \<open>old\<close> is replaced.\<close>

fun Replace1 :: "string \<Rightarrow> string \<Rightarrow> string \<Rightarrow> string" where
  "Replace1 [] old new = (if old = [] then new else [])"
| "Replace1 (c # cs) old new =
     (if HasPrefix (c # cs) old then new @ drop (length old) (c # cs)
      else c # Replace1 cs old new)"

text \<open>\<open>hex.EncodeToString\<close>: two lower-case hexadecimal digits for each byte.\<close>

definition hexdigit :: "nat \<Rightarrow> char" where
  "hexdigit n = ''0123456789abcdef'' ! n"

fun EncodeToString :: "string \<Rightarrow> string" where
  "EncodeToString [] = []"
| "EncodeToString (b # bs) =
     hexdigit (of_char b div 16) # hexdigit (of_char b mod 16) # EncodeToString bs"

text \<open>
  \<open>specialRE = regexp.MustCompile(`[^\w]+`)\<close> and its \<open>ReplaceAllLiteralString\<close>: every
  maximal run of bytes outside \<open>[0-9A-Za-z_]\<close> becomes one copy of \<open>repl\<close>. (A rune
  outside ASCII is a run of bytes outside the class, so runs of bytes and runs of
  runes coincide.) The flag says whether the previous byte belonged to a run.
\<close>

definition isWord :: "char \<Rightarrow> bool" where
  "isWord c =
     (c \<in> set ''0123456789ABCDEFGHIJKLMNOPQRSTUVWXYZ_abcdefghijklmnopqrstuvwxyz'')"

fun replaceRuns :: "bool \<Rightarrow> string \<Rightarrow> string \<Rightarrow> string" where
  "replaceRuns inRun [] repl = []"
| "replaceRuns inRun (c # cs) repl =
     (if isWord c then c # replaceRuns False cs repl
      else if inRun then replaceRuns True cs repl
      else repl @ replaceRuns True cs repl)"

definition specialRE_ReplaceAllLiteralString :: "string \<Rightarrow> string \<Rightarrow> string" where
  "specialRE_ReplaceAllLiteralString src repl = replaceRuns False src repl"

text \<open>
  The name computed by \<open>statePath\<close> (from \<open>digest := sha1.Sum(...)\<close> to the truncation
  \<open>name = name[:127]\<close>), and \<open>statePath\<close> itself. The slice cannot panic: it is taken
  only when \<open>len(name) > 127\<close>.
\<close>

definition stateFileName :: "lib \<Rightarrow> string \<Rightarrow> string" where
  "stateFileName L addr =
     (let digest = sha1_Sum L addr;
          name = EncodeToString digest @ ''_'' @ specialRE_ReplaceAllLiteralString addr ''_''
      in if length name > 127 then take 127 name else name)"

definition statePath :: "lib \<Rightarrow> config \<Rightarrow> env \<Rightarrow> string \<Rightarrow> error + string" where
  "statePath L C E addr =
     (case (if HasPrefix (stateDir C) ''~''
            then (case UserHomeDir E of
                    None \<Rightarrow> Inl ErrHomeDir
                  | Some home \<Rightarrow> Inr (Replace1 (stateDir C) ''~'' home))
            else Inr (stateDir C)) of
        Inl err \<Rightarrow> Inl err
      | Inr dir \<Rightarrow> Inr (filepath_Join L dir (stateFileName L addr)))"

text \<open>
  \<open>os.ReadFile\<close>, \<open>os.MkdirAll\<close> and \<open>os.WriteFile\<close>. A missing file is \<open>ErrNotExist\<close>; a
  write that fails leaves the file as it was.
\<close>

definition os_ReadFile :: "env \<Rightarrow> state \<Rightarrow> string \<Rightarrow> error + string" where
  "os_ReadFile E s name =
     (case ReadFile_fault E name of
        Some err \<Rightarrow> Inl err
      | None \<Rightarrow> (case files s name of None \<Rightarrow> Inl ErrNotExist | Some p \<Rightarrow> Inr p))"

definition os_MkdirAll :: "env \<Rightarrow> string \<Rightarrow> state \<Rightarrow> error option \<times> state" where
  "os_MkdirAll E dir s = (MkdirAll_fault E dir, emit (Sys_MkdirAll dir) s)"

definition os_WriteFile :: "env \<Rightarrow> string \<Rightarrow> string \<Rightarrow> state \<Rightarrow> error option \<times> state" where
  "os_WriteFile E name text s =
     (case WriteFile_fault E name of
        Some err \<Rightarrow> (Some err, emit (Sys_WriteFile name text) s)
      | None \<Rightarrow> (None, (emit (Sys_WriteFile name text) s)\<lparr>files := (files s)(name \<mapsto> text)\<rparr>))"

definition writeState ::
  "lib \<Rightarrow> config \<Rightarrow> env \<Rightarrow> string \<Rightarrow> string \<Rightarrow> state \<Rightarrow> error option \<times> state" where
  "writeState L C E addr text s =
     (case statePath L C E addr of
        Inl err \<Rightarrow> (Some err, s)
      | Inr name \<Rightarrow>
          (let s1 = emit (Glog_V 2 (MsgStored addr name (length text))) s
           in case os_MkdirAll E (filepath_Dir L name) s1 of
                (Some err, s2) \<Rightarrow> (Some err, s2)
              | (None, s2) \<Rightarrow> os_WriteFile E name text s2))"

definition readState ::
  "lib \<Rightarrow> config \<Rightarrow> env \<Rightarrow> string \<Rightarrow> state \<Rightarrow> (string \<times> error option) \<times> state" where
  "readState L C E addr s =
     (case statePath L C E addr of
        Inl err \<Rightarrow> (('''', Some err), s)
      | Inr name \<Rightarrow>
          (case os_ReadFile E s name of
             Inl err \<Rightarrow> (('''', Some err), s)
           | Inr p \<Rightarrow> ((p, None), emit (Glog_V 2 (MsgLoaded addr name (length p))) s)))"

section \<open>The fetch pipeline and the watch cycle\<close>

definition getURLText :: "lib \<Rightarrow> env \<Rightarrow> string \<Rightarrow> string \<times> error option" where
  "getURLText L E addr =
     (case http_NewRequest E addr of
        Some err \<Rightarrow> ('''', Some err)
      | None \<Rightarrow>
          (case http_Do E addr of
             Some err \<Rightarrow> ('''', Some err)
           | None \<Rightarrow>
               (case io_ReadAll E addr of
                  Inl err \<Rightarrow> ('''', Some err)
                | Inr body \<Rightarrow>
                    (case html2text_FromString L body of
                       Inl err \<Rightarrow> ('''', Some err)
                     | Inr text \<Rightarrow> (text, None)))))"

text \<open>
  \<open>reportDiffs\<close> as \<open>diffURL\<close> calls it: the call of the diff library is recorded.
\<close>

definition reportDiffs_call ::
  "lib \<Rightarrow> string \<Rightarrow> string \<Rightarrow> string \<Rightarrow> state \<Rightarrow> ((string \<times> int) \<times> state) option" where
  "reportDiffs_call L old new w s =
     (case reportDiffs (dmp_Diff L) old new w of
        None \<Rightarrow> None
      | Some r \<Rightarrow> Some (r, emit (Dmp_DiffMain old new) s))"

text \<open>
  \<open>diffURL\<close> of the later variant. The result is the triple \<open>(diff, edits, err)\<close> and the
  new state; \<open>None\<close> is a panic.
\<close>

definition diffURL ::
  "lib \<Rightarrow> config \<Rightarrow> env \<Rightarrow> string \<Rightarrow> state \<Rightarrow> ((string \<times> int \<times> error option) \<times> state) option" where
  "diffURL L C E addr s =
     (case getURLText L E addr of
        (text, Some err) \<Rightarrow> Some (('''', 0, Some err), s)
      | (text, None) \<Rightarrow>
          (case readState L C E addr s of
             ((old, err0), s1) \<Rightarrow>
               (let s2 = (if os_IsNotExist err0 then emit (Glog_Info (MsgFirstTime addr)) s1 else s1);
                    err = (if os_IsNotExist err0 then None else err0)
                in case err of
                     Some e \<Rightarrow> Some (('''', 0, Some e), s2)
                   | None \<Rightarrow>
                       if old = text then Some (('''', 0, None), s2)
                       else (case writeState L C E addr text s2 of
                               (Some e, s3) \<Rightarrow> Some (('''', 0, Some e), s3)
                             | (None, s3) \<Rightarrow>
                                 if old = '''' then Some ((''(initial fetch)'', 0, None), s3)
                                 else (case reportDiffs_call L old text [] s3 of
                                         None \<Rightarrow> None
                                       | Some ((sb, edits), s4) \<Rightarrow>
                                           Some ((sb, edits, None), s4))))))"

text \<open>
  \<open>ctx.Err()\<close> after \<open>diffURL\<close>: with a timeout installed the context is a child of the
  shared one with the deadline \<open>*requestTimeout\<close>. When the shared context is cancelled
  and the deadline has passed as well, the model reports the shared context's error;
  nothing below depends on which of the two it is.
\<close>

definition ctx_Err :: "config \<Rightarrow> env \<Rightarrow> int \<Rightarrow> error option" where
  "ctx_Err C E timeout =
     (if timeout > 0
      then (case parent_Err E of
              Some e \<Rightarrow> Some e
            | None \<Rightarrow> if requestTimeout C \<le> elapsed E then Some DeadlineExceeded else None)
      else parent_Err E)"

definition diffURLWithTimeout ::
  "lib \<Rightarrow> config \<Rightarrow> env \<Rightarrow> int \<Rightarrow> string \<Rightarrow> state \<Rightarrow>
   ((string \<times> int \<times> error option) \<times> state) option" where
  "diffURLWithTimeout L C E timeout addr s =
     (case diffURL L C E addr s of
        None \<Rightarrow> None
      | Some ((diff, edits, err), s1) \<Rightarrow>
          (case err of
             None \<Rightarrow>
               (case ctx_Err C E timeout of
                  Some ce \<Rightarrow> Some ((diff, edits, Some (ErrContext addr ce)), s1)
                | None \<Rightarrow> Some ((diff, edits, None), s1))
           | Some e \<Rightarrow> Some ((diff, edits, Some e), s1)))"

definition notify :: "config \<Rightarrow> string \<Rightarrow> string \<Rightarrow> int \<Rightarrow> state \<Rightarrow> state" where
  "notify C addr diff edits s =
     (let s1 = (if logFullDiff C then emit (Glog_Info (MsgUpdatedFull addr edits diff)) s
                else emit (Glog_Info (MsgUpdated addr edits)) (emit (Printf_diff addr diff) s));
          s2 = (if macNotify C then emit (Mack_Notify addr edits) s1 else s1)
      in if macClipboard C then emit (Mack_SetClipboard addr) s2 else s2)"

section \<open>The watch loop\<close>

text \<open>
  \<open>time.Duration\<close> is a signed 64-bit integer: the sum \<open>every + j\<close> wraps around.
  \<open>rand.Int63n(n)\<close> panics unless \<open>n > 0\<close> and otherwise reduces a non-negative sample
  to the range from \<open>0\<close> up to, not including, \<open>n\<close>.
\<close>

definition wrap64 :: "int \<Rightarrow> int" where
  "wrap64 x = (x + 2 ^ 63) mod 2 ^ 64 - 2 ^ 63"

definition rand_Int63n :: "env \<Rightarrow> int \<Rightarrow> int option" where
  "rand_Int63n E n = (if n \<le> 0 then None else Some (int (rand_sample E) mod n))"

text \<open>
  The block \<open>if every > 0 { ... t.Reset(every + j) ... }\<close> at the head of a tick
  (division and multiplication by \<open>time.Nanosecond\<close>, which is 1, are left out).
\<close>

definition reset_timer :: "env \<Rightarrow> string \<Rightarrow> int \<Rightarrow> int \<Rightarrow> state \<Rightarrow> state option" where
  "reset_timer E addr every jitter s =
     (if every > 0
      then (case (if jitter > 0 then rand_Int63n E jitter else Some 0) of
              None \<Rightarrow> None
            | Some j \<Rightarrow>
                Some (emit (Glog_V 2 (MsgFetching addr every j jitter))
                        (s\<lparr>timer := Some (wrap64 (every + j))\<rparr>)))
      else Some s)"

text \<open>
  How a run of \<open>watch\<close> stands after a finite script of environment steps: it has
  returned, it has panicked, or it is still inside the \<open>for\<close> loop, waiting in the
  \<open>select\<close>.
\<close>

datatype outcome = Returned | Panicked | InSelect

text \<open>
  The loop of \<open>watch\<close>, one environment step for each time the \<open>select\<close> is reached.
  When the context is done the function returns. Otherwise a pending timer fires and
  the tick runs. With no pending timer and no cancellation neither case of the
  \<open>select\<close> is ready: the goroutine stays blocked there during this step.
\<close>

fun watch_loop ::
  "lib \<Rightarrow> config \<Rightarrow> string \<Rightarrow> int \<Rightarrow> int \<Rightarrow> env list \<Rightarrow> state \<Rightarrow> outcome \<times> state" where
  "watch_loop L C addr every jitter [] s = (InSelect, s)"
| "watch_loop L C addr every jitter (E # Es) s =
     (if select_ctx_done E then (Returned, s)
      else (case timer s of
              None \<Rightarrow> watch_loop L C addr every jitter Es s
            | Some d \<Rightarrow>
                (case reset_timer E addr every jitter (s\<lparr>timer := None\<rparr>) of
                   None \<Rightarrow> (Panicked, s\<lparr>timer := None\<rparr>)
                 | Some s1 \<Rightarrow>
                     (case diffURLWithTimeout L C E (requestTimeout C) addr s1 of
                        None \<Rightarrow> (Panicked, s1)
                      | Some ((diff, edits, err), s2) \<Rightarrow>
                          (case err of
                             Some e \<Rightarrow>
                               watch_loop L C addr every jitter Es
                                 (emit (Glog_Warning (MsgChecking addr e)) s2)
                           | None \<Rightarrow>
                               (let s3 = (if diff \<noteq> '''' then notify C addr diff edits s2
                                          else emit (Glog_V 1 (MsgNoChange addr)) s2)
                                in if every \<le> 0
                                   then (Returned, emit (Glog_Info MsgBailing) s3)
                                   else watch_loop L C addr every jitter Es s3))))))"

text \<open>\<open>watch\<close>: the timer starts at one nanosecond.\<close>

definition watch ::
  "lib \<Rightarrow> config \<Rightarrow> string \<Rightarrow> int \<Rightarrow> int \<Rightarrow> env list \<Rightarrow> (string \<rightharpoonup> string) \<Rightarrow> outcome \<times> state" where
  "watch L C addr every jitter Es fs =
     watch_loop L C addr every jitter Es \<lparr>files = fs, timer = Some 1, events = []\<rparr>"

section \<open>The legacy variant\<close>

text \<open>
  \<open>src/watchurl.go\<close>: \<open>statePath\<close> without the truncation of the name, \<open>readState\<close>
  and \<open>writeState\<close> without log lines, and \<open>diffURL\<close>, which returns a \<open>nil\<close> error when
  the fetch or the read fails. Its \<open>getURLText\<close> and \<open>reportDiffs\<close> are the same text
  as in the later variant.
\<close>

definition legacy_stateFileName :: "lib \<Rightarrow> string \<Rightarrow> string" where
  "legacy_stateFileName L addr =
     (let digest = sha1_Sum L addr
      in EncodeToString digest @ ''_'' @ specialRE_ReplaceAllLiteralString addr ''_'')"

definition legacy_statePath :: "lib \<Rightarrow> config \<Rightarrow> env \<Rightarrow> string \<Rightarrow> error + string" where
  "legacy_statePath L C E addr =
     (case (if HasPrefix (stateDir C) ''~''
            then (case UserHomeDir E of
                    None \<Rightarrow> Inl ErrHomeDir
                  | Some home \<Rightarrow> Inr (Replace1 (stateDir C) ''~'' home))
            else Inr (stateDir C)) of
        Inl err \<Rightarrow> Inl err
      | Inr dir \<Rightarrow> Inr (filepath_Join L dir (legacy_stateFileName L addr)))"

definition legacy_writeState ::
  "lib \<Rightarrow> config \<Rightarrow> env \<Rightarrow> string \<Rightarrow> string \<Rightarrow> state \<Rightarrow> error option \<times> state" where
  "legacy_writeState L C E addr text s =
     (case legacy_statePath L C E addr of
        Inl err \<Rightarrow> (Some err, s)
      | Inr name \<Rightarrow>
          (case os_MkdirAll E (filepath_Dir L name) s of
             (Some err, s2) \<Rightarrow> (Some err, s2)
           | (None, s2) \<Rightarrow> os_WriteFile E name text s2))"

definition legacy_readState ::
  "lib \<Rightarrow> config \<Rightarrow> env \<Rightarrow> string \<Rightarrow> state \<Rightarrow> (string \<times> error option) \<times> state" where
  "legacy_readState L C E addr s =
     (case legacy_statePath L C E addr of
        Inl err \<Rightarrow> (('''', Some err), s)
      | Inr name \<Rightarrow>
          (case os_ReadFile E s name of
             Inl err \<Rightarrow> (('''', Some err), s)
           | Inr p \<Rightarrow> ((p, None), s)))"

definition legacy_diffURL ::
  "lib \<Rightarrow> config \<Rightarrow> env \<Rightarrow> string \<Rightarrow> state \<Rightarrow> ((string \<times> int \<times> error option) \<times> state) option" where
  "legacy_diffURL L C E addr s =
     (case getURLText L E addr of
        (text, Some err) \<Rightarrow> Some (('''', 0, None), s)
      | (text, None) \<Rightarrow>
          (case legacy_readState L C E addr s of
             ((old, err0), s1) \<Rightarrow>
               (let err = (if os_IsNotExist err0 then None else err0)
                in case err of
                     Some e \<Rightarrow> Some (('''', 0, None), s1)
                   | None \<Rightarrow>
                       if old = text then Some (('''', 0, None), s1)
                       else (case legacy_writeState L C E addr text s1 of
                               (Some e, s3) \<Rightarrow> Some (('''', 0, Some e), s3)
                             | (None, s3) \<Rightarrow>
                                 if old = '''' then Some ((''(initial fetch)'', 0, None), s3)
                                 else (case reportDiffs_call L old text [] s3 of
                                         None \<Rightarrow> None
                                       | Some ((sb, edits), s4) \<Rightarrow>
                                           Some ((sb, edits, None), s4))))))"

section \<open>A sample run\<close>

text \<open>
  A concrete setting for the closed instances below: the address \<open>http://a\<close>, the
  state directory \<open>/mnt/data\<close> of the Docker image, the SHA-1 digest of the address,
  a transport that answers with a given text, no failing system call, and a diff
  that replaces the old text by the new one.
\<close>

definition sample_lib :: lib where
  "sample_lib =
     \<lparr>sha1_Sum = (\<lambda>_. [CHR 0xF7, CHR 0x65, CHR 0x1F, CHR 0xAE, CHR 0x28, CHR 0xA4,
                        CHR 0x1B, CHR 0x7D, CHR 0x0A, CHR 0xF3, CHR 0xDD, CHR 0x8D,
                        CHR 0x1A, CHR 0xF2, CHR 0xC3, CHR 0x95, CHR 0x4C, CHR 0x09,
                        CHR 0x70, CHR 0x43]),
      filepath_Join = (\<lambda>dir name. dir @ ''/'' @ name),
      filepath_Dir = (\<lambda>_. ''/mnt/data''),
      html2text_FromString = Inr,
      dmp_Diff = (\<lambda>old new. [Diff DiffDelete old, Diff DiffInsert new])\<rparr>"

definition sample_config :: config where
  "sample_config =
     \<lparr>stateDir = ''/mnt/data'', requestTimeout = 30000000000, macNotify = False,
      macClipboard = False, logFullDiff = False\<rparr>"

definition sample_env :: "string \<Rightarrow> env" where
  "sample_env body =
     \<lparr>select_ctx_done = False, rand_sample = 1, UserHomeDir = Some ''/root'',
      http_NewRequest = (\<lambda>_. None), http_Do = (\<lambda>_. None), io_ReadAll = (\<lambda>_. Inr body),
      ReadFile_fault = (\<lambda>_. None), MkdirAll_fault = (\<lambda>_. None),
      WriteFile_fault = (\<lambda>_. None), parent_Err = None, elapsed = 1000\<rparr>"

definition sample_path :: string where
  "sample_path = ''/mnt/data/f7651fae28a41b7d0af3dd8d1af2c3954c097043_http_a''"

definition no_files :: "string \<rightharpoonup> string" where
  "no_files = Map.empty"

definition sample_state :: "(string \<rightharpoonup> string) \<Rightarrow> state" where
  "sample_state fs = \<lparr>files = fs, timer = Some 1, events = []\<rparr>"

text \<open>Variants: the transport refuses, the disk is full, the request outlives its timeout.\<close>

definition sample_env_refused :: env where
  "sample_env_refused =
     (sample_env '''')\<lparr>http_Do := (\<lambda>_. Some (ErrHTTP ''connection refused''))\<rparr>"

definition sample_env_disk_full :: "string \<Rightarrow> env" where
  "sample_env_disk_full body =
     (sample_env body)\<lparr>WriteFile_fault := (\<lambda>_. Some (ErrIO ''no space left on device''))\<rparr>"

definition sample_env_expired :: "string \<Rightarrow> env" where
  "sample_env_expired body = (sample_env body)\<lparr>elapsed := 30000000001\<rparr>"

section \<open>Properties of the string primitives\<close>

lemma IndexByte_range: "-1 \<le> IndexByte s c \<and> IndexByte s c < int (length s)"
  by (induction s) (auto simp: Let_def)

lemma IndexByte_notin: "c \<notin> set s \<Longrightarrow> IndexByte s c = -1"
  by (induction s) (auto simp: Let_def)

lemma IndexByte_in: "c \<in> set s \<Longrightarrow> IndexByte s c = int (length (takeWhile (\<lambda>x. x \<noteq> c) s))"
  by (induction s) (auto simp: Let_def)

lemma IndexByte_append: "c \<notin> set a \<Longrightarrow> IndexByte (a @ c # r) c = int (length a)"
  by (induction a) (auto simp: Let_def)

lemma LastIndexByte_notin: "c \<notin> set s \<Longrightarrow> LastIndexByte s c = -1"
  by (induction s) (auto simp: Let_def)

lemma LastIndexByte_append: "c \<notin> set b \<Longrightarrow> LastIndexByte (a @ c # b) c = int (length a)"
  by (induction a) (auto simp: Let_def LastIndexByte_notin)

lemma count_le_one_cases:
  "count_list t c \<le> 1 \<Longrightarrow> c \<notin> set t \<or> (\<exists>a b. t = a @ c # b \<and> c \<notin> set a \<and> c \<notin> set b)"
proof (induction t)
  case Nil
  then show ?case by simp
next
  case (Cons x t)
  show ?case
  proof (cases "x = c")
    case True
    with Cons.prems have "count_list t c = 0" by simp
    then have "c \<notin> set t" by (simp add: count_list_0_iff)
    with True have "x # t = [] @ c # t \<and> c \<notin> set [] \<and> c \<notin> set t" by simp
    then show ?thesis by blast
  next
    case False
    with Cons.prems have "count_list t c \<le> 1" by simp
    from Cons.IH [OF this] show ?thesis
    proof
      assume "c \<notin> set t"
      with False show ?thesis by simp
    next
      assume "\<exists>a b. t = a @ c # b \<and> c \<notin> set a \<and> c \<notin> set b"
      then obtain a b where "t = a @ c # b" "c \<notin> set a" "c \<notin> set b" by blast
      with False have "x # t = (x # a) @ c # b \<and> c \<notin> set (x # a) \<and> c \<notin> set b" by simp
      then show ?thesis by blast
    qed
  qed
qed

lemma count_ge_two_split:
  "2 \<le> count_list t c \<Longrightarrow>
   \<exists>a m b. t = a @ c # m @ c # b \<and> c \<notin> set a \<and> c \<notin> set b"
proof -
  assume two: "2 \<le> count_list t c"
  then have "c \<in> set t"
    by (metis count_list_0_iff not_numeral_le_zero)
  then obtain a r where t: "t = a @ c # r" and a: "c \<notin> set a"
    by (meson split_list_first)
  from two t a have "1 \<le> count_list r c" by (simp add: count_list_0_iff)
  then have "c \<in> set r"
    by (metis count_list_0_iff not_one_le_zero)
  then obtain m b where r: "r = m @ c # b" and b: "c \<notin> set b"
    by (meson split_list_last)
  from t r a b show ?thesis by blast
qed

lemma LastIndexByte_range: "-1 \<le> LastIndexByte s c \<and> LastIndexByte s c < int (length s)"
  by (induction s) (auto simp: Let_def)

lemma IndexByte_neg_iff: "IndexByte s c < 0 \<longleftrightarrow> c \<notin> set s"
  by (induction s) (auto simp: Let_def)

lemma LastIndexByte_neg_iff: "LastIndexByte s c < 0 \<longleftrightarrow> c \<notin> set s"
  by (induction s) (auto simp: Let_def)

lemma slices_defined:
  assumes "LastIndexByte t c \<noteq> IndexByte t c"
  shows "\<exists>a b. slice_to t (IndexByte t c) = Some a \<and> slice_from t (LastIndexByte t c) = Some b"
proof -
  have "c \<in> set t"
  proof (rule ccontr)
    assume "c \<notin> set t"
    then have "IndexByte t c = -1" "LastIndexByte t c = -1"
      by (simp_all add: IndexByte_notin LastIndexByte_notin)
    with assms show False by simp
  qed
  then have "0 \<le> IndexByte t c" "0 \<le> LastIndexByte t c"
    using IndexByte_neg_iff [of t c] LastIndexByte_neg_iff [of t c] by auto
  moreover have "IndexByte t c < int (length t)" "LastIndexByte t c < int (length t)"
    using IndexByte_range [of t c] LastIndexByte_range [of t c] by auto
  ultimately show ?thesis
    by (simp add: slice_to_def slice_from_def)
qed

lemma reportDiffs_loop_total: "\<exists>r. reportDiffs_loop ds w e = Some r"
proof (induction ds arbitrary: w e)
  case Nil
  show ?case by simp
next
  case (Cons d ds)
  show ?case
  proof (cases "Type d")
    case DiffDelete
    then show ?thesis using Cons.IH by simp
  next
    case DiffInsert
    then show ?thesis using Cons.IH by simp
  next
    case DiffEqual
    show ?thesis
    proof (cases "LastIndexByte (Text d) NL = IndexByte (Text d) NL")
      case True
      with DiffEqual show ?thesis using Cons.IH by simp
    next
      case False
      from slices_defined [OF False] obtain a b where
        "slice_to (Text d) (IndexByte (Text d) NL) = Some a"
        "slice_from (Text d) (LastIndexByte (Text d) NL) = Some b" by blast
      with DiffEqual False show ?thesis using Cons.IH by (simp add: Let_def)
    qed
  qed
qed

lemma reportDiffs_call_total:
  "\<exists>sb edits. reportDiffs_call L old new w s = Some ((sb, edits), emit (Dmp_DiffMain old new) s)"
proof -
  obtain r where "reportDiffs_loop (dmp_Diff L old new) w 0 = Some r"
    using reportDiffs_loop_total by blast
  then show ?thesis
    by (cases r) (simp add: reportDiffs_call_def reportDiffs_def)
qed

lemma diffURL_total: "\<exists>r s'. diffURL L C E addr s = Some (r, s')"
  using reportDiffs_call_total [of L]
  apply (simp add: diffURL_def Let_def split: prod.splits option.splits)
  apply (metis option.distinct(1) option.inject prod.inject)
  done

section \<open>Unchanged spans\<close>

text \<open>
  C1. In \<open>reportDiffs\<close>, an unchanged span whose text has at most one line break is
  written verbatim. A span with two or more line breaks splits in exactly one way into
  the text \<open>a\<close> before its first line break, the bytes \<open>m\<close> strictly between the first
  and the last line break, and the text \<open>b\<close> after the last one; what is written is
  \<open>a\<close>, then the marker \<open>\n(skipped k bytes)\n\<close> with \<open>k\<close> the distance from the first to
  the last line break (\<open>length m + 1\<close>), then the text from the last line break onward
  (\<open>NL # b\<close>). The edit count is unchanged and no slice panics; the writer \<open>w\<close> and the
  count \<open>e\<close> are arbitrary, so this holds wherever the span occurs in the diff.
\<close>

theorem reportDiffs_equal_span:
  "(count_list t NL \<le> 1 \<longrightarrow>
      reportDiffs_loop (Diff DiffEqual t # ds) w e = reportDiffs_loop ds (w @ t) e) \<and>
   (2 \<le> count_list t NL \<longrightarrow>
      (\<exists>a m b. t = a @ NL # m @ NL # b \<and> NL \<notin> set a \<and> NL \<notin> set b \<and>
         reportDiffs_loop (Diff DiffEqual t # ds) w e =
           reportDiffs_loop ds
             (w @ a @ (NL # ''(skipped '') @ fmt_d (int (length m) + 1) @ ('' bytes)'' @ [NL])
                @ (NL # b)) e))"
proof (intro conjI impI)
  assume "count_list t NL \<le> 1"
  from count_le_one_cases [OF this]
  have "LastIndexByte t NL = IndexByte t NL"
    by (auto simp: IndexByte_notin LastIndexByte_notin IndexByte_append LastIndexByte_append)
  then show "reportDiffs_loop (Diff DiffEqual t # ds) w e = reportDiffs_loop ds (w @ t) e"
    by simp
next
  assume "2 \<le> count_list t NL"
  from count_ge_two_split [OF this]
  obtain a m b where t: "t = a @ NL # m @ NL # b" and a: "NL \<notin> set a" and b: "NL \<notin> set b"
    by blast
  have f: "IndexByte t NL = int (length a)"
    using a by (simp add: t IndexByte_append)
  have "t = (a @ NL # m) @ NL # b" by (simp add: t)
  then have "LastIndexByte t NL = int (length (a @ NL # m))"
    using b LastIndexByte_append by metis
  then have l: "LastIndexByte t NL = int (length a) + int (length m) + 1" by simp
  have st: "slice_to t (int (length a)) = Some a"
    by (simp add: slice_to_def t)
  have "drop (Suc (length a + length m)) ((a @ NL # m) @ NL # b) = NL # b"
    by simp
  then have sf: "slice_from t (int (length a) + int (length m) + 1) = Some (NL # b)"
    by (simp add: slice_from_def t nat_add_distrib)
  have "reportDiffs_loop (Diff DiffEqual t # ds) w e =
        reportDiffs_loop ds
          (w @ a @ (NL # ''(skipped '') @ fmt_d (int (length m) + 1) @ ('' bytes)'' @ [NL])
             @ (NL # b)) e"
    by (simp add: f l st sf Let_def)
  with t a b show "\<exists>a m b. t = a @ NL # m @ NL # b \<and> NL \<notin> set a \<and> NL \<notin> set b \<and>
         reportDiffs_loop (Diff DiffEqual t # ds) w e =
           reportDiffs_loop ds
             (w @ a @ (NL # ''(skipped '') @ fmt_d (int (length m) + 1) @ ('' bytes)'' @ [NL])
                @ (NL # b)) e"
    by blast
qed

theorem reportDiffs_equal_span_witness:
  "count_list (''ab'' @ [NL]) NL \<le> 1 \<and>
   reportDiffs_loop [Diff DiffEqual (''ab'' @ [NL])] [] 0 = Some (''ab'' @ [NL], 0) \<and>
   2 \<le> count_list (''ab'' @ NL # ''cd'' @ NL # ''ef'') NL \<and>
   (\<exists>a m b. ''ab'' @ NL # ''cd'' @ NL # ''ef'' = a @ NL # m @ NL # b \<and> NL \<notin> set a \<and> NL \<notin> set b \<and>
      reportDiffs_loop [Diff DiffEqual (''ab'' @ NL # ''cd'' @ NL # ''ef'')] [] 0 =
        Some (a @ (NL # ''(skipped '') @ fmt_d (int (length m) + 1) @ ('' bytes)'' @ [NL]) @ (NL # b), 0))"
proof -
  have one: "count_list (''ab'' @ [NL]) NL \<le> 1"
    by (simp add: NL_def)
  have two: "2 \<le> count_list (''ab'' @ NL # ''cd'' @ NL # ''ef'') NL"
    by (simp add: NL_def)
  from one reportDiffs_equal_span [of "''ab'' @ [NL]" "[]" "[]" 0]
  have "reportDiffs_loop [Diff DiffEqual (''ab'' @ [NL])] [] 0 = Some (''ab'' @ [NL], 0)"
    by simp
  moreover from two reportDiffs_equal_span [of "''ab'' @ NL # ''cd'' @ NL # ''ef''" "[]" "[]" 0]
  have "\<exists>a m b. ''ab'' @ NL # ''cd'' @ NL # ''ef'' = a @ NL # m @ NL # b \<and> NL \<notin> set a \<and> NL \<notin> set b \<and>
      reportDiffs_loop [Diff DiffEqual (''ab'' @ NL # ''cd'' @ NL # ''ef'')] [] 0 =
        Some (a @ (NL # ''(skipped '') @ fmt_d (int (length m) + 1) @ ('' bytes)'' @ [NL]) @ (NL # b), 0)"
    by simp
  ultimately show ?thesis using one two by blast
qed

section \<open>The sample run, evaluated\<close>

lemma sample_name:
  "stateFileName sample_lib ''http://a'' = ''f7651fae28a41b7d0af3dd8d1af2c3954c097043_http_a''"
  by (simp add: stateFileName_def sample_lib_def hexdigit_def
      specialRE_ReplaceAllLiteralString_def isWord_def)

lemma sample_statePath:
  "statePath sample_lib sample_config (sample_env body) ''http://a'' = Inr sample_path"
  by (simp add: statePath_def sample_name sample_config_def HasPrefix_def sample_path_def)
     (simp add: sample_lib_def)

section \<open>The state key\<close>

lemma stateFileName_take:
  "stateFileName L u =
     take 127 (EncodeToString (sha1_Sum L u) @ ''_'' @ specialRE_ReplaceAllLiteralString u ''_'')"
  by (simp add: stateFileName_def Let_def)

text \<open>
  C6. \<open>statePath\<close> is a function of the address, the state directory and the home
  directory alone: two configurations with the same state directory and two
  environments with the same home directory give the same path (or the same error),
  whatever else differs, and the files are not read at all. The path is the directory
  joined with a name that is the hexadecimal digest, an underscore and the sanitized
  address, cut to 127 bytes: the name never exceeds 127 bytes.
\<close>

theorem statePath_deterministic_bounded:
  "length (stateFileName L u) \<le> 127 \<and>
   stateFileName L u =
     take 127 (EncodeToString (sha1_Sum L u) @ ''_'' @ specialRE_ReplaceAllLiteralString u ''_'') \<and>
   (stateDir C = stateDir C' \<and> UserHomeDir E = UserHomeDir E' \<longrightarrow>
      statePath L C E u = statePath L C' E' u) \<and>
   (\<forall>p. statePath L C E u = Inr p \<longrightarrow> (\<exists>dir. p = filepath_Join L dir (stateFileName L u)))"
proof (intro conjI impI allI)
  show "length (stateFileName L u) \<le> 127"
    by (simp add: stateFileName_take)
  show "stateFileName L u =
     take 127 (EncodeToString (sha1_Sum L u) @ ''_'' @ specialRE_ReplaceAllLiteralString u ''_'')"
    by (rule stateFileName_take)
next
  assume "stateDir C = stateDir C' \<and> UserHomeDir E = UserHomeDir E'"
  then show "statePath L C E u = statePath L C' E' u"
    by (auto simp: statePath_def split: option.splits)
next
  fix p
  assume "statePath L C E u = Inr p"
  then show "\<exists>dir. p = filepath_Join L dir (stateFileName L u)"
    by (auto simp: statePath_def split: if_splits option.splits)
qed

theorem statePath_deterministic_bounded_witness:
  "length (stateFileName sample_lib ''http://a'') \<le> 127 \<and>
   statePath sample_lib sample_config (sample_env ''Hello'') ''http://a'' =
     statePath sample_lib sample_config (sample_env ''Bye'') ''http://a'' \<and>
   (\<exists>dir. sample_path = filepath_Join sample_lib dir (stateFileName sample_lib ''http://a''))"
proof -
  have h: "stateDir sample_config = stateDir sample_config \<and>
           UserHomeDir (sample_env ''Hello'') = UserHomeDir (sample_env ''Bye'')"
    by (simp add: sample_env_def)
  have p: "statePath sample_lib sample_config (sample_env ''Hello'') ''http://a'' = Inr sample_path"
    by (rule sample_statePath)
  from statePath_deterministic_bounded
         [of sample_lib "''http://a''" sample_config sample_config
             "sample_env ''Hello''" "sample_env ''Bye''"] h p
  show ?thesis by blast
qed

section \<open>The watch cycle: first observation\<close>

lemmas store_defs =
  readState_def writeState_def os_ReadFile_def os_MkdirAll_def os_WriteFile_def emit_def

lemma diffURL_first_observation:
  assumes "getURLText L E addr = (text, None)" and "text \<noteq> ''''"
    and "statePath L C E addr = Inr p" and "files s p = None" and "ReadFile_fault E p = None"
    and "MkdirAll_fault E (filepath_Dir L p) = None" and "WriteFile_fault E p = None"
  shows "diffURL L C E addr s =
      Some ((''(initial fetch)'', 0, None),
            s\<lparr>files := (files s)(p \<mapsto> text),
              events := events s @
                [Glog_Info (MsgFirstTime addr), Glog_V 2 (MsgStored addr p (length text)),
                 Sys_MkdirAll (filepath_Dir L p), Sys_WriteFile p text]\<rparr>)"
  using assms by (auto simp: diffURL_def store_defs Let_def)

lemma sample_getURLText: "getURLText sample_lib (sample_env body) addr = (body, None)"
  by (simp add: getURLText_def sample_env_def sample_lib_def)

lemma sample_Dir: "filepath_Dir sample_lib p = ''/mnt/data''"
  by (simp add: sample_lib_def)

lemma sample_ctx_Err: "ctx_Err sample_config (sample_env body) (requestTimeout sample_config) = None"
  by (simp add: ctx_Err_def sample_config_def sample_env_def)

lemma sample_env_faults:
  "ReadFile_fault (sample_env body) p = None"
  "MkdirAll_fault (sample_env body) p = None"
  "WriteFile_fault (sample_env body) p = None"
  "\<not> select_ctx_done (sample_env body)"
  by (simp_all add: sample_env_def)

text \<open>
  C2, as stated, fails for the empty text: with no snapshot on disk \<open>readState\<close> yields
  the empty string, which equals an empty fetched text, so \<open>diffURL\<close> returns no report
  and writes nothing.
\<close>

theorem first_observation_counterexample:
  "diffURL sample_lib sample_config (sample_env '''') ''http://a'' (sample_state no_files) =
     Some (('''', 0, None),
           \<lparr>files = no_files, timer = Some 1,
              events = [Glog_Info (MsgFirstTime ''http://a'')]\<rparr>)"
  by (simp add: diffURL_def sample_getURLText store_defs sample_statePath sample_state_def
      sample_env_faults no_files_def)

text \<open>
  C2, amended. With no snapshot on disk, a successful fetch of a non-empty text whose
  write succeeds makes \<open>diffURL\<close> return the report \<open>(initial fetch)\<close> with edit count
  0 and no error, and the fetched text is the new snapshot; the only effects are the
  log lines and the write. In one-shot mode, when the context has not expired, the
  run of \<open>watch\<close> calls \<open>notify\<close> once, with this report, and returns.
\<close>

theorem first_observation:
  assumes fetch: "getURLText L E addr = (text, None)" and ne: "text \<noteq> ''''"
    and path: "statePath L C E addr = Inr p"
    and absent: "files s p = None" and rd: "ReadFile_fault E p = None"
    and mk: "MkdirAll_fault E (filepath_Dir L p) = None" and wr: "WriteFile_fault E p = None"
  shows "diffURL L C E addr s =
      Some ((''(initial fetch)'', 0, None),
            s\<lparr>files := (files s)(p \<mapsto> text),
              events := events s @
                [Glog_Info (MsgFirstTime addr), Glog_V 2 (MsgStored addr p (length text)),
                 Sys_MkdirAll (filepath_Dir L p), Sys_WriteFile p text]\<rparr>) \<and>
    (every \<le> 0 \<and> \<not> select_ctx_done E \<and> timer s = Some d \<and>
     ctx_Err C E (requestTimeout C) = None \<longrightarrow>
       watch_loop L C addr every jitter (E # Es) s =
         (Returned,
          emit (Glog_Info MsgBailing)
            (notify C addr ''(initial fetch)'' 0
               (s\<lparr>files := (files s)(p \<mapsto> text), timer := None,
                  events := events s @
                    [Glog_Info (MsgFirstTime addr), Glog_V 2 (MsgStored addr p (length text)),
                     Sys_MkdirAll (filepath_Dir L p), Sys_WriteFile p text]\<rparr>))))"
proof (intro conjI impI)
  show "diffURL L C E addr s =
      Some ((''(initial fetch)'', 0, None),
            s\<lparr>files := (files s)(p \<mapsto> text),
              events := events s @
                [Glog_Info (MsgFirstTime addr), Glog_V 2 (MsgStored addr p (length text)),
                 Sys_MkdirAll (filepath_Dir L p), Sys_WriteFile p text]\<rparr>)"
    by (rule diffURL_first_observation [OF assms])
next
  assume a: "every \<le> 0 \<and> \<not> select_ctx_done E \<and> timer s = Some d \<and>
     ctx_Err C E (requestTimeout C) = None"
  have "files (s\<lparr>timer := None\<rparr>) p = None" using absent by simp
  from diffURL_first_observation [OF fetch ne path this rd mk wr]
  have "diffURLWithTimeout L C E (requestTimeout C) addr (s\<lparr>timer := None\<rparr>) =
      Some ((''(initial fetch)'', 0, None),
            s\<lparr>files := (files s)(p \<mapsto> text), timer := None,
              events := events s @
                [Glog_Info (MsgFirstTime addr), Glog_V 2 (MsgStored addr p (length text)),
                 Sys_MkdirAll (filepath_Dir L p), Sys_WriteFile p text]\<rparr>)"
    using a by (simp add: diffURLWithTimeout_def)
  then show "watch_loop L C addr every jitter (E # Es) s =
         (Returned,
          emit (Glog_Info MsgBailing)
            (notify C addr ''(initial fetch)'' 0
               (s\<lparr>files := (files s)(p \<mapsto> text), timer := None,
                  events := events s @
                    [Glog_Info (MsgFirstTime addr), Glog_V 2 (MsgStored addr p (length text)),
                     Sys_MkdirAll (filepath_Dir L p), Sys_WriteFile p text]\<rparr>)))"
    using a by (simp add: reset_timer_def)
qed

theorem first_observation_witness:
  "diffURL sample_lib sample_config (sample_env ''Hello'') ''http://a'' (sample_state Map.empty) =
     Some ((''(initial fetch)'', 0, None),
           \<lparr>files = [sample_path \<mapsto> ''Hello''], timer = Some 1,
              events = [Glog_Info (MsgFirstTime ''http://a''),
                        Glog_V 2 (MsgStored ''http://a'' sample_path 5),
                        Sys_MkdirAll ''/mnt/data'', Sys_WriteFile sample_path ''Hello'']\<rparr>) \<and>
   watch sample_lib sample_config ''http://a'' 0 0 [sample_env ''Hello''] Map.empty =
     (Returned,
      \<lparr>files = [sample_path \<mapsto> ''Hello''], timer = None,
         events = [Glog_Info (MsgFirstTime ''http://a''),
                   Glog_V 2 (MsgStored ''http://a'' sample_path 5),
                   Sys_MkdirAll ''/mnt/data'', Sys_WriteFile sample_path ''Hello'',
                   Printf_diff ''http://a'' ''(initial fetch)'',
                   Glog_Info (MsgUpdated ''http://a'' 0), Glog_Info MsgBailing]\<rparr>)"
proof -
  have h: "getURLText sample_lib (sample_env ''Hello'') ''http://a'' = (''Hello'', None)"
    "''Hello'' \<noteq> ''''"
    "statePath sample_lib sample_config (sample_env ''Hello'') ''http://a'' = Inr sample_path"
    "files (sample_state Map.empty) sample_path = None"
    "ReadFile_fault (sample_env ''Hello'') sample_path = None"
    "MkdirAll_fault (sample_env ''Hello'') (filepath_Dir sample_lib sample_path) = None"
    "WriteFile_fault (sample_env ''Hello'') sample_path = None"
    by (simp_all add: sample_getURLText sample_statePath sample_state_def sample_env_faults)
  have w: "(0::int) \<le> 0 \<and> \<not> select_ctx_done (sample_env ''Hello'') \<and>
     timer (sample_state Map.empty) = Some 1 \<and>
     ctx_Err sample_config (sample_env ''Hello'') (requestTimeout sample_config) = None"
    by (simp add: sample_ctx_Err sample_env_faults sample_state_def)
  from first_observation [OF h, of 0 1 0 "[]"] w
  show ?thesis
    by (simp add: watch_def sample_state_def sample_Dir notify_def emit_def)
       (simp add: sample_config_def)
qed

section \<open>The watch cycle: unchanged text\<close>

lemma diffURL_unchanged:
  assumes "getURLText L E addr = (text, None)" and "statePath L C E addr = Inr p"
    and "files s p = Some text" and "ReadFile_fault E p = None"
  shows "diffURL L C E addr s =
           Some (('''', 0, None), emit (Glog_V 2 (MsgLoaded addr p (length text))) s)"
  using assms by (simp add: diffURL_def readState_def os_ReadFile_def Let_def)

text \<open>
  C4. When the stored snapshot is read and equals the fetched text, \<open>diffURL\<close> returns
  the empty report, edit count 0 and no error; its only effect is the log line of
  \<open>readState\<close>: no \<open>os.WriteFile\<close>, no call of the diff library, the files unchanged.
  A tick of \<open>watch\<close> in that situation (\<open>s1\<close> is the state after the timer block) adds
  only log lines: a warning when the context has expired meanwhile, the line
  \<open>No change\<close> otherwise; \<open>notify\<close> is not called.
\<close>

theorem unchanged_no_op:
  assumes fetch: "getURLText L E addr = (text, None)" and path: "statePath L C E addr = Inr p"
    and stored: "files s p = Some text" and rd: "ReadFile_fault E p = None"
  shows "diffURL L C E addr s =
           Some (('''', 0, None), emit (Glog_V 2 (MsgLoaded addr p (length text))) s) \<and>
    (\<not> select_ctx_done E \<and> timer s = Some d \<and>
     reset_timer E addr every jitter (s\<lparr>timer := None\<rparr>) = Some s1 \<longrightarrow>
       files s1 = files s \<and>
       watch_loop L C addr every jitter [E] s =
         (case ctx_Err C E (requestTimeout C) of
            Some ce \<Rightarrow>
              (InSelect,
               emit (Glog_Warning (MsgChecking addr (ErrContext addr ce)))
                 (emit (Glog_V 2 (MsgLoaded addr p (length text))) s1))
          | None \<Rightarrow>
              if every \<le> 0
              then (Returned,
                    emit (Glog_Info MsgBailing)
                      (emit (Glog_V 1 (MsgNoChange addr))
                         (emit (Glog_V 2 (MsgLoaded addr p (length text))) s1)))
              else (InSelect,
                    emit (Glog_V 1 (MsgNoChange addr))
                      (emit (Glog_V 2 (MsgLoaded addr p (length text))) s1))))"
proof (intro conjI impI)
  show "diffURL L C E addr s =
           Some (('''', 0, None), emit (Glog_V 2 (MsgLoaded addr p (length text))) s)"
    by (rule diffURL_unchanged [OF assms])
next
  assume a: "\<not> select_ctx_done E \<and> timer s = Some d \<and>
     reset_timer E addr every jitter (s\<lparr>timer := None\<rparr>) = Some s1"
  then show f: "files s1 = files s"
    by (auto simp: reset_timer_def emit_def split: if_splits option.splits)
  with stored have "files s1 p = Some text" by simp
  from diffURL_unchanged [OF fetch path this rd]
  have "diffURLWithTimeout L C E (requestTimeout C) addr s1 =
      (case ctx_Err C E (requestTimeout C) of
         Some ce \<Rightarrow> Some (('''', 0, Some (ErrContext addr ce)),
                        emit (Glog_V 2 (MsgLoaded addr p (length text))) s1)
       | None \<Rightarrow> Some (('''', 0, None), emit (Glog_V 2 (MsgLoaded addr p (length text))) s1))"
    by (simp add: diffURLWithTimeout_def split: option.splits)
  with a show "watch_loop L C addr every jitter [E] s =
         (case ctx_Err C E (requestTimeout C) of
            Some ce \<Rightarrow>
              (InSelect,
               emit (Glog_Warning (MsgChecking addr (ErrContext addr ce)))
                 (emit (Glog_V 2 (MsgLoaded addr p (length text))) s1))
          | None \<Rightarrow>
              if every \<le> 0
              then (Returned,
                    emit (Glog_Info MsgBailing)
                      (emit (Glog_V 1 (MsgNoChange addr))
                         (emit (Glog_V 2 (MsgLoaded addr p (length text))) s1)))
              else (InSelect,
                    emit (Glog_V 1 (MsgNoChange addr))
                      (emit (Glog_V 2 (MsgLoaded addr p (length text))) s1)))"
    by (simp split: option.splits)
qed

theorem unchanged_no_op_witness:
  "diffURL sample_lib sample_config (sample_env ''Hello world'') ''http://a''
     (sample_state [sample_path \<mapsto> ''Hello world'']) =
     Some (('''', 0, None),
           \<lparr>files = [sample_path \<mapsto> ''Hello world''], timer = Some 1,
              events = [Glog_V 2 (MsgLoaded ''http://a'' sample_path 11)]\<rparr>) \<and>
   watch sample_lib sample_config ''http://a'' 0 0 [sample_env ''Hello world'']
     [sample_path \<mapsto> ''Hello world''] =
     (Returned,
      \<lparr>files = [sample_path \<mapsto> ''Hello world''], timer = None,
         events = [Glog_V 2 (MsgLoaded ''http://a'' sample_path 11),
                   Glog_V 1 (MsgNoChange ''http://a''), Glog_Info MsgBailing]\<rparr>)"
proof -
  have h: "getURLText sample_lib (sample_env ''Hello world'') ''http://a'' = (''Hello world'', None)"
    "statePath sample_lib sample_config (sample_env ''Hello world'') ''http://a'' = Inr sample_path"
    "files (sample_state [sample_path \<mapsto> ''Hello world'']) sample_path = Some ''Hello world''"
    "ReadFile_fault (sample_env ''Hello world'') sample_path = None"
    by (simp_all add: sample_getURLText sample_statePath sample_state_def sample_env_faults)
  have w: "\<not> select_ctx_done (sample_env ''Hello world'') \<and>
     timer (sample_state [sample_path \<mapsto> ''Hello world'']) = Some 1 \<and>
     reset_timer (sample_env ''Hello world'') ''http://a'' 0 0
       ((sample_state [sample_path \<mapsto> ''Hello world''])\<lparr>timer := None\<rparr>) =
       Some ((sample_state [sample_path \<mapsto> ''Hello world''])\<lparr>timer := None\<rparr>)"
    by (simp add: sample_env_faults sample_state_def reset_timer_def)
  from unchanged_no_op [OF h, of 1 0 0 "(sample_state [sample_path \<mapsto> ''Hello world''])\<lparr>timer := None\<rparr>"] w
  show ?thesis
    by (simp add: watch_def sample_state_def sample_ctx_Err emit_def)
qed

section \<open>The watch cycle: an empty snapshot\<close>

text \<open>
  C9. When the stored snapshot is the empty string and the fetched text is not empty
  (and the write succeeds), \<open>diffURL\<close> stores the new text and returns the report
  \<open>(initial fetch)\<close> with edit count 0, not a diff: the diff library is not called.
  The returned triple is the one \<open>diffURL\<close> returns when the file does not exist.
\<close>

theorem empty_snapshot_as_first_observation:
  assumes fetch: "getURLText L E addr = (text, None)" and ne: "text \<noteq> ''''"
    and path: "statePath L C E addr = Inr p"
    and stored: "files s p = Some ''''" and rd: "ReadFile_fault E p = None"
    and mk: "MkdirAll_fault E (filepath_Dir L p) = None" and wr: "WriteFile_fault E p = None"
  shows "diffURL L C E addr s =
      Some ((''(initial fetch)'', 0, None),
            s\<lparr>files := (files s)(p \<mapsto> text),
              events := events s @
                [Glog_V 2 (MsgLoaded addr p 0), Glog_V 2 (MsgStored addr p (length text)),
                 Sys_MkdirAll (filepath_Dir L p), Sys_WriteFile p text]\<rparr>) \<and>
    map_option fst (diffURL L C E addr s) =
      map_option fst (diffURL L C E addr (s\<lparr>files := (files s)(p := None)\<rparr>))"
proof
  show d: "diffURL L C E addr s =
      Some ((''(initial fetch)'', 0, None),
            s\<lparr>files := (files s)(p \<mapsto> text),
              events := events s @
                [Glog_V 2 (MsgLoaded addr p 0), Glog_V 2 (MsgStored addr p (length text)),
                 Sys_MkdirAll (filepath_Dir L p), Sys_WriteFile p text]\<rparr>)"
    using assms by (auto simp: diffURL_def store_defs Let_def)
  have "files (s\<lparr>files := (files s)(p := None)\<rparr>) p = None" by simp
  from diffURL_first_observation [OF fetch ne path this rd mk wr] d
  show "map_option fst (diffURL L C E addr s) =
      map_option fst (diffURL L C E addr (s\<lparr>files := (files s)(p := None)\<rparr>))"
    by simp
qed

theorem empty_snapshot_as_first_observation_witness:
  "diffURL sample_lib sample_config (sample_env ''Hello'') ''http://a''
     (sample_state [sample_path \<mapsto> '''']) =
     Some ((''(initial fetch)'', 0, None),
           \<lparr>files = [sample_path \<mapsto> ''Hello''], timer = Some 1,
              events = [Glog_V 2 (MsgLoaded ''http://a'' sample_path 0),
                        Glog_V 2 (MsgStored ''http://a'' sample_path 5),
                        Sys_MkdirAll ''/mnt/data'', Sys_WriteFile sample_path ''Hello'']\<rparr>)"
proof -
  have h: "getURLText sample_lib (sample_env ''Hello'') ''http://a'' = (''Hello'', None)"
    "''Hello'' \<noteq> ''''"
    "statePath sample_lib sample_config (sample_env ''Hello'') ''http://a'' = Inr sample_path"
    "files (sample_state [sample_path \<mapsto> '''']) sample_path = Some ''''"
    "ReadFile_fault (sample_env ''Hello'') sample_path = None"
    "MkdirAll_fault (sample_env ''Hello'') (filepath_Dir sample_lib sample_path) = None"
    "WriteFile_fault (sample_env ''Hello'') sample_path = None"
    by (simp_all add: sample_getURLText sample_statePath sample_state_def sample_env_faults)
  from empty_snapshot_as_first_observation [OF h]
  show ?thesis
    by (simp add: sample_state_def sample_Dir)
qed

section \<open>The errors of the watch cycle\<close>

lemma statePath_env:
  "UserHomeDir E = UserHomeDir E' \<Longrightarrow> statePath L C E u = statePath L C E' u"
  by (simp add: statePath_def)

lemma sample_disk_full:
  "getURLText sample_lib (sample_env_disk_full body) addr = (body, None)"
  "statePath sample_lib sample_config (sample_env_disk_full body) ''http://a'' = Inr sample_path"
  "ReadFile_fault (sample_env_disk_full body) p = None"
  "MkdirAll_fault (sample_env_disk_full body) p = None"
  "WriteFile_fault (sample_env_disk_full body) p = Some (ErrIO ''no space left on device'')"
proof -
  show "getURLText sample_lib (sample_env_disk_full body) addr = (body, None)"
    by (simp add: getURLText_def sample_env_disk_full_def sample_env_def sample_lib_def)
  have "UserHomeDir (sample_env_disk_full body) = UserHomeDir (sample_env body)"
    by (simp add: sample_env_disk_full_def)
  from statePath_env [OF this]
  show "statePath sample_lib sample_config (sample_env_disk_full body) ''http://a'' = Inr sample_path"
    by (simp add: sample_statePath)
qed (simp_all add: sample_env_disk_full_def sample_env_def)

lemma writeState_err_indep:
  "fst (writeState L C E addr text s) = fst (writeState L C E addr text s')"
  by (simp add: writeState_def os_MkdirAll_def os_WriteFile_def Let_def
      split: sum.splits option.splits)

text \<open>
  C5. \<open>diffURL\<close> always returns, and its error is not \<open>nil\<close> exactly when the fetch
  fails (\<open>ferr\<close>), or the state read fails with an error that is not a not-found
  error (\<open>rerr\<close>), or the snapshot differs from the fetched text and the write fails
  (\<open>werr\<close>; the write is attempted only then). On every error the report is empty and
  the edit count 0. A not-found read is no error: the prior snapshot is then the empty
  string, so an empty fetched text gives no report and a non-empty one the report
  \<open>(initial fetch)\<close>, or the error of the write.
\<close>

theorem diffURL_error_iff:
  assumes fetch: "getURLText L E addr = (text, ferr)"
    and rd: "readState L C E addr s = ((old, rerr), s1)"
    and wr: "fst (writeState L C E addr text s) = werr"
  shows "\<exists>diff edits err s'.
      diffURL L C E addr s = Some ((diff, edits, err), s') \<and>
      (err \<noteq> None \<longleftrightarrow>
         ferr \<noteq> None \<or> (rerr \<noteq> None \<and> \<not> os_IsNotExist rerr) \<or> (old \<noteq> text \<and> werr \<noteq> None)) \<and>
      (err \<noteq> None \<longrightarrow> diff = '''' \<and> edits = 0) \<and>
      (ferr = None \<and> os_IsNotExist rerr \<longrightarrow>
         (diff, edits, err) =
           (if text = '''' then ('''', 0, None)
            else case werr of Some e \<Rightarrow> ('''', 0, Some e) | None \<Rightarrow> (''(initial fetch)'', 0, None)))"
proof (cases ferr)
  case (Some e)
  with fetch show ?thesis by (simp add: diffURL_def)
next
  case None
  note f = None
  have old: "rerr \<noteq> None \<Longrightarrow> old = ''''"
    using rd by (auto simp: readState_def split: sum.splits)
  have ni: "os_IsNotExist rerr \<Longrightarrow> old = ''''"
    using old by (cases rerr) auto
  show ?thesis
  proof (cases "rerr \<noteq> None \<and> \<not> os_IsNotExist rerr")
    case True
    with fetch f rd show ?thesis by (auto simp: diffURL_def Let_def)
  next
    case False
    define s2 where "s2 = (if os_IsNotExist rerr then emit (Glog_Info (MsgFirstTime addr)) s1 else s1)"
    have e: "(if os_IsNotExist rerr then None else rerr) = None"
      using False by auto
    show ?thesis
    proof (cases "old = text")
      case True
      with fetch f rd e ni show ?thesis
        by (auto simp: diffURL_def Let_def)
    next
      case ne: False
      obtain w s3 where w: "writeState L C E addr text s2 = (w, s3)"
        by (cases "writeState L C E addr text s2") auto
      have "fst (writeState L C E addr text s2) = fst (writeState L C E addr text s)"
        by (rule writeState_err_indep)
      with w wr have ww: "w = werr" by simp
      show ?thesis
      proof (cases werr)
        case (Some e')
        with fetch f rd e ne w ww old ni show ?thesis
          by (auto simp: diffURL_def Let_def s2_def)
      next
        case None
        note wn = None
        show ?thesis
        proof (cases "old = ''''")
          case True
          with fetch f rd e ne w ww wn ni show ?thesis
            by (auto simp: diffURL_def Let_def s2_def)
        next
          case False
          with old have rn: "rerr = None" by blast
          obtain sb edits where
            "reportDiffs_call L old text [] s3 = Some ((sb, edits), emit (Dmp_DiffMain old text) s3)"
            using reportDiffs_call_total by blast
          with fetch f rd ne w ww wn False rn ni show ?thesis
            by (auto simp: diffURL_def Let_def s2_def)
        qed
      qed
    qed
  qed
qed

theorem diffURL_error_iff_witness:
  "\<exists>diff edits err s'.
      diffURL sample_lib sample_config (sample_env_disk_full ''Hello'') ''http://a''
        (sample_state [sample_path \<mapsto> ''Help'']) = Some ((diff, edits, err), s') \<and>
      err \<noteq> None \<and> diff = '''' \<and> edits = 0"
proof -
  have f: "getURLText sample_lib (sample_env_disk_full ''Hello'') ''http://a'' = (''Hello'', None)"
    by (rule sample_disk_full)
  have r: "readState sample_lib sample_config (sample_env_disk_full ''Hello'') ''http://a''
            (sample_state [sample_path \<mapsto> ''Help'']) =
           ((''Help'', None),
            emit (Glog_V 2 (MsgLoaded ''http://a'' sample_path (length ''Help'')))
              (sample_state [sample_path \<mapsto> ''Help'']))"
    by (simp add: readState_def sample_disk_full os_ReadFile_def sample_state_def del: list.size)
  have w: "fst (writeState sample_lib sample_config (sample_env_disk_full ''Hello'') ''http://a''
             ''Hello'' (sample_state [sample_path \<mapsto> ''Help''])) =
           Some (ErrIO ''no space left on device'')"
    by (simp add: writeState_def sample_disk_full os_MkdirAll_def os_WriteFile_def)
  from diffURL_error_iff [OF f r w] show ?thesis
    by auto
qed

section \<open>Scheduling\<close>

lemma wrap64_id: "- (2 ^ 63) \<le> x \<Longrightarrow> x < 2 ^ 63 \<Longrightarrow> wrap64 x = x"
  by (simp add: wrap64_def)

lemma timer_emit: "timer (emit ev s) = timer s"
  by (simp add: emit_def)

lemma timer_notify: "timer (notify C addr diff edits s) = timer s"
  by (simp add: notify_def Let_def timer_emit)

lemma timer_diffURL:
  assumes "diffURL L C E addr s = Some (r, s')"
  shows "timer s' = timer s"
  using assms
  by (auto simp: diffURL_def readState_def writeState_def os_ReadFile_def os_MkdirAll_def
      os_WriteFile_def reportDiffs_call_def emit_def Let_def
      split: prod.splits option.splits sum.splits if_splits)

lemma diffURLWithTimeout_total:
  "\<exists>diff edits err s'. diffURLWithTimeout L C E timeout addr s = Some ((diff, edits, err), s') \<and>
     timer s' = timer s"
proof -
  obtain r s' where d: "diffURL L C E addr s = Some (r, s')"
    using diffURL_total by blast
  then have "timer s' = timer s" by (rule timer_diffURL)
  with d show ?thesis
    by (cases r) (auto simp: diffURLWithTimeout_def split: option.splits)
qed

lemma watch_tick_timer:
  assumes "\<not> select_ctx_done E" and "timer s = Some d"
    and "reset_timer E addr every jitter (s\<lparr>timer := None\<rparr>) = Some s1"
  shows "timer (snd (watch_loop L C addr every jitter [E] s)) = timer s1"
proof -
  obtain diff edits err s2 where
    d: "diffURLWithTimeout L C E (requestTimeout C) addr s1 = Some ((diff, edits, err), s2)"
    and t: "timer s2 = timer s1"
    using diffURLWithTimeout_total by blast
  with assms show ?thesis
    by (simp add: timer_emit timer_notify Let_def split: option.splits)
qed

text \<open>
  C7, as stated, fails when the sum leaves the range of \<open>time.Duration\<close>: with the
  largest interval that \<open>--repeat-every\<close> accepts (\<open>2^63 - 1\<close> nanoseconds), a jitter
  of two nanoseconds and the sample 1, \<open>every + j\<close> wraps around and the timer is reset
  to a negative delay.
\<close>

theorem next_tick_delay_counterexample:
  "timer (snd (watch sample_lib sample_config ''http://a'' 9223372036854775807 2
                 [sample_env ''Hello''] no_files)) = Some (- 9223372036854775808)"
proof -
  have "reset_timer (sample_env ''Hello'') ''http://a'' 9223372036854775807 2
          (\<lparr>files = Map.empty, timer = Some 1, events = []\<rparr>\<lparr>timer := None\<rparr>) =
        Some (emit (Glog_V 2 (MsgFetching ''http://a'' 9223372036854775807 1 2))
                (\<lparr>files = Map.empty, timer = None, events = []\<rparr>
                   \<lparr>timer := Some (- 9223372036854775808)\<rparr>))"
    by (simp add: reset_timer_def rand_Int63n_def wrap64_def sample_env_def)
  from watch_tick_timer [OF _ _ this, of 1 sample_lib sample_config]
  show ?thesis
    by (simp add: watch_def sample_env_faults timer_emit no_files_def)
qed

text \<open>
  C7, amended. For a positive interval \<open>every\<close> and a jitter \<open>jitter \<ge> 0\<close> whose sum
  is a \<open>time.Duration\<close> (at most \<open>2^63 - 1\<close>), a tick resets the timer to \<open>every + j\<close>
  with \<open>0 \<le> j < jitter\<close>, and \<open>j = 0\<close> when the jitter is 0; the delay lies between
  \<open>every\<close> and \<open>every + jitter\<close>. Whatever the tick does afterwards, this is the timer
  when the loop is back at its \<open>select\<close>.
\<close>

theorem next_tick_delay:
  assumes pos: "0 < every" and jit: "0 \<le> jitter" and nov: "every + jitter \<le> 2 ^ 63 - 1"
    and sel: "\<not> select_ctx_done E" and t: "timer s = Some d"
  shows "\<exists>j. 0 \<le> j \<and> (if jitter = 0 then j = 0 else j < jitter) \<and>
           timer (snd (watch_loop L C addr every jitter [E] s)) = Some (every + j) \<and>
           every \<le> every + j \<and> every + j \<le> every + jitter"
proof -
  define j where "j = (if jitter > 0 then int (rand_sample E) mod jitter else 0)"
  have j0: "0 \<le> j" and j1: "if jitter = 0 then j = 0 else j < jitter"
    using jit by (auto simp: j_def)
  then have j2: "j \<le> jitter" by (auto split: if_splits)
  have "wrap64 (every + j) = every + j"
    using pos j0 j2 nov by (intro wrap64_id) auto
  then have "reset_timer E addr every jitter (s\<lparr>timer := None\<rparr>) =
      Some (emit (Glog_V 2 (MsgFetching addr every j jitter))
              (s\<lparr>timer := Some (every + j)\<rparr>))"
    using pos by (cases "0 < jitter") (simp_all add: reset_timer_def rand_Int63n_def j_def)
  from watch_tick_timer [OF sel t this]
  have "timer (snd (watch_loop L C addr every jitter [E] s)) = Some (every + j)"
    by (simp add: timer_emit)
  with j0 j1 j2 show ?thesis by auto
qed

theorem next_tick_delay_witness:
  "\<exists>j. 0 \<le> j \<and> j < 120000000000 \<and>
     timer (snd (watch sample_lib sample_config ''http://a'' 300000000000 120000000000
                   [sample_env ''Hello''] Map.empty)) = Some (300000000000 + j)"
proof -
  have h: "(0::int) < 300000000000" "(0::int) \<le> 120000000000"
    "(300000000000::int) + 120000000000 \<le> 2 ^ 63 - 1"
    "\<not> select_ctx_done (sample_env ''Hello'')"
    "timer \<lparr>files = Map.empty, timer = Some 1, events = []\<rparr> = Some 1"
    by (simp_all add: sample_env_faults)
  from next_tick_delay [OF h, of sample_lib sample_config "''http://a''"]
  show ?thesis by (auto simp: watch_def)
qed

section \<open>One-shot mode and a failing tick\<close>

lemma watch_loop_blocked:
  "timer s = None \<Longrightarrow> \<forall>E \<in> set Es. \<not> select_ctx_done E \<Longrightarrow>
   watch_loop L C addr every jitter Es s = (InSelect, s)"
  by (induction Es) auto

lemma sample_refused:
  "getURLText sample_lib sample_env_refused addr = ('''', Some (ErrHTTP ''connection refused''))"
  "\<not> select_ctx_done sample_env_refused"
  by (simp_all add: getURLText_def sample_env_refused_def sample_env_def)

text \<open>
  C3: the code does not do what the claim says. In one-shot mode (\<open>every = 0\<close>) with a
  fetch that fails, \<open>watch\<close> logs the warning and writes no state, but its \<open>continue\<close>
  skips the test \<open>every <= 0\<close>: the loop is back at the \<open>select\<close> with a timer that
  has fired and was not reset, so it has not returned, and no later step of the
  environment short of a cancellation makes it return.
\<close>

theorem one_shot_failure_blocks:
  "watch sample_lib sample_config ''http://a'' 0 0
     [sample_env_refused, sample_env ''Hello'', sample_env ''Hello''] no_files =
   (InSelect,
    \<lparr>files = no_files, timer = None,
       events = [Glog_Warning (MsgChecking ''http://a'' (ErrHTTP ''connection refused''))]\<rparr>)"
proof -
  have d: "diffURLWithTimeout sample_lib sample_config sample_env_refused
             (requestTimeout sample_config) ''http://a''
             \<lparr>files = no_files, timer = None, events = []\<rparr> =
           Some (('''', 0, Some (ErrHTTP ''connection refused'')),
                 \<lparr>files = no_files, timer = None, events = []\<rparr>)"
    by (simp add: diffURLWithTimeout_def diffURL_def sample_refused)
  have "watch sample_lib sample_config ''http://a'' 0 0
          [sample_env_refused, sample_env ''Hello'', sample_env ''Hello''] no_files =
        watch_loop sample_lib sample_config ''http://a'' 0 0
          [sample_env ''Hello'', sample_env ''Hello'']
          \<lparr>files = no_files, timer = None,
             events = [Glog_Warning (MsgChecking ''http://a'' (ErrHTTP ''connection refused''))]\<rparr>"
    by (simp add: watch_def sample_refused reset_timer_def d emit_def)
  also have "\<dots> = (InSelect,
    \<lparr>files = no_files, timer = None,
       events = [Glog_Warning (MsgChecking ''http://a'' (ErrHTTP ''connection refused''))]\<rparr>)"
    by (rule watch_loop_blocked) (simp_all add: sample_env_faults)
  finally show ?thesis .
qed

section \<open>A context that expires during a tick\<close>

lemma sample_expired:
  "getURLText sample_lib (sample_env_expired body) addr = (body, None)"
  "statePath sample_lib sample_config (sample_env_expired body) ''http://a'' = Inr sample_path"
  "ReadFile_fault (sample_env_expired body) p = None"
  "MkdirAll_fault (sample_env_expired body) p = None"
  "WriteFile_fault (sample_env_expired body) p = None"
  "\<not> select_ctx_done (sample_env_expired body)"
  "ctx_Err sample_config (sample_env_expired body) (requestTimeout sample_config) =
     Some DeadlineExceeded"
proof -
  show "getURLText sample_lib (sample_env_expired body) addr = (body, None)"
    by (simp add: getURLText_def sample_env_expired_def sample_env_def sample_lib_def)
  have "UserHomeDir (sample_env_expired body) = UserHomeDir (sample_env body)"
    by (simp add: sample_env_expired_def)
  from statePath_env [OF this]
  show "statePath sample_lib sample_config (sample_env_expired body) ''http://a'' = Inr sample_path"
    by (simp add: sample_statePath)
qed (simp_all add: sample_env_expired_def sample_env_def ctx_Err_def sample_config_def)

text \<open>
  C10. When \<open>diffURL\<close> returns without an error and \<open>ctx.Err()\<close> is not \<open>nil\<close> afterwards
  (the timeout has expired, or the shared context is cancelled), \<open>diffURLWithTimeout\<close>
  returns the context error wrapped for the address, together with the state
  \<open>diffURL\<close> left; \<open>watch\<close> then logs the tick as a failure and does not call \<open>notify\<close>.
  In the closed instance after it the snapshot has been written during that tick.
\<close>

theorem context_error_replaces_success:
  assumes ok: "diffURL L C E addr s = Some ((diff, edits, None), s1)"
    and ctx: "ctx_Err C E timeout = Some ce"
  shows "diffURLWithTimeout L C E timeout addr s =
           Some ((diff, edits, Some (ErrContext addr ce)), s1) \<and>
    (timeout = requestTimeout C \<and> \<not> select_ctx_done E \<and> timer s0 = Some d \<and>
     reset_timer E addr every jitter (s0\<lparr>timer := None\<rparr>) = Some s \<longrightarrow>
       watch_loop L C addr every jitter [E] s0 =
         (InSelect, emit (Glog_Warning (MsgChecking addr (ErrContext addr ce))) s1))"
  using assms by (auto simp: diffURLWithTimeout_def)

theorem context_error_replaces_success_witness:
  "diffURLWithTimeout sample_lib sample_config (sample_env_expired ''Hello'')
     (requestTimeout sample_config) ''http://a'' (sample_state Map.empty) =
     Some ((''(initial fetch)'', 0, Some (ErrContext ''http://a'' DeadlineExceeded)),
           \<lparr>files = [sample_path \<mapsto> ''Hello''], timer = Some 1,
              events = [Glog_Info (MsgFirstTime ''http://a''),
                        Glog_V 2 (MsgStored ''http://a'' sample_path 5),
                        Sys_MkdirAll ''/mnt/data'', Sys_WriteFile sample_path ''Hello'']\<rparr>) \<and>
   watch sample_lib sample_config ''http://a'' 0 0 [sample_env_expired ''Hello''] Map.empty =
     (InSelect,
      \<lparr>files = [sample_path \<mapsto> ''Hello''], timer = None,
         events = [Glog_Info (MsgFirstTime ''http://a''),
                   Glog_V 2 (MsgStored ''http://a'' sample_path 5),
                   Sys_MkdirAll ''/mnt/data'', Sys_WriteFile sample_path ''Hello'',
                   Glog_Warning (MsgChecking ''http://a''
                                   (ErrContext ''http://a'' DeadlineExceeded))]\<rparr>)"
proof -
  have ok: "diffURL sample_lib sample_config (sample_env_expired ''Hello'') ''http://a'' s =
      Some ((''(initial fetch)'', 0, None),
            s\<lparr>files := (files s)(sample_path \<mapsto> ''Hello''),
              events := events s @
                [Glog_Info (MsgFirstTime ''http://a''),
                 Glog_V 2 (MsgStored ''http://a'' sample_path (length ''Hello'')),
                 Sys_MkdirAll (filepath_Dir sample_lib sample_path),
                 Sys_WriteFile sample_path ''Hello'']\<rparr>)"
    if "files s sample_path = None" for s
    by (rule diffURL_first_observation) (simp_all add: sample_expired that)
  have c: "ctx_Err sample_config (sample_env_expired ''Hello'') (requestTimeout sample_config) =
     Some DeadlineExceeded"
    by (rule sample_expired)
  have w: "requestTimeout sample_config = requestTimeout sample_config \<and>
     \<not> select_ctx_done (sample_env_expired ''Hello'') \<and>
     timer (sample_state Map.empty) = Some 1 \<and>
     reset_timer (sample_env_expired ''Hello'') ''http://a'' 0 0
       ((sample_state Map.empty)\<lparr>timer := None\<rparr>) = Some ((sample_state Map.empty)\<lparr>timer := None\<rparr>)"
    by (simp add: sample_expired sample_state_def reset_timer_def)
  have f1: "files (sample_state Map.empty) sample_path = None"
    and f2: "files ((sample_state Map.empty)\<lparr>timer := None\<rparr>) sample_path = None"
    by (simp_all add: sample_state_def)
  from context_error_replaces_success [OF ok [OF f1] c, of "sample_state Map.empty" 1 0 0]
       context_error_replaces_success [OF ok [OF f2] c, of "sample_state Map.empty" 1 0 0] w
  show ?thesis
    by (simp add: watch_def sample_state_def sample_Dir emit_def)
qed

section \<open>The legacy variant and the later one\<close>

lemma stateFileName_legacy:
  "length (legacy_stateFileName L addr) \<le> 127 \<Longrightarrow>
   stateFileName L addr = legacy_stateFileName L addr"
  by (simp add: stateFileName_def legacy_stateFileName_def Let_def)

lemma statePath_legacy:
  "length (legacy_stateFileName L addr) \<le> 127 \<Longrightarrow>
   legacy_statePath L C E addr = statePath L C E addr"
  by (simp add: statePath_def legacy_statePath_def stateFileName_legacy
      split: option.splits)

text \<open>
  C8. When the state file name of the address, as the legacy \<open>statePath\<close> derives it
  (without truncation), has at most 127 bytes, and the fetch, the read of the state
  (of a file that exists or not) and the write succeed, the legacy \<open>diffURL\<close> and the
  later \<open>diffURL\<close>, started on the same files, return the same report and the same
  edit count, both without an error, and leave the same files.
\<close>

theorem legacy_diffURL_agrees:
  assumes len: "length (legacy_stateFileName L addr) \<le> 127"
    and fetch: "getURLText L E addr = (new, None)"
    and path: "statePath L C E addr = Inr p"
    and rd: "ReadFile_fault E p = None"
    and mk: "MkdirAll_fault E (filepath_Dir L p) = None"
    and wr: "WriteFile_fault E p = None"
  shows "\<exists>diff edits s' s''.
           diffURL L C E addr s = Some ((diff, edits, None), s') \<and>
           legacy_diffURL L C E addr s = Some ((diff, edits, None), s'') \<and>
           files s' = files s''"
proof -
  have lp: "legacy_statePath L C E addr = Inr p"
    using statePath_legacy [OF len] path by simp
  define old where "old = (case files s p of None \<Rightarrow> '''' | Some t \<Rightarrow> t)"
  obtain sb ed where rep: "reportDiffs_loop (dmp_Diff L old new) [] 0 = Some (sb, ed)"
    using reportDiffs_loop_total [of "dmp_Diff L old new" "[]" 0] by auto
  show ?thesis
  proof (cases "files s p")
    case None
    then have o: "old = ''''" by (simp add: old_def)
    have r1: "readState L C E addr s = (('''', Some ErrNotExist), s)"
      by (simp add: readState_def path os_ReadFile_def rd None)
    have r2: "legacy_readState L C E addr s = (('''', Some ErrNotExist), s)"
      by (simp add: legacy_readState_def lp os_ReadFile_def rd None)
    show ?thesis
      by (simp add: diffURL_def legacy_diffURL_def fetch r1 r2 writeState_def
          legacy_writeState_def path lp os_MkdirAll_def os_WriteFile_def mk wr emit_def Let_def)
  next
    case (Some t)
    then have o: "old = t" by (simp add: old_def)
    have r1: "readState L C E addr s =
                ((t, None), emit (Glog_V 2 (MsgLoaded addr p (length t))) s)"
      by (simp add: readState_def path os_ReadFile_def rd Some)
    have r2: "legacy_readState L C E addr s = ((t, None), s)"
      by (simp add: legacy_readState_def lp os_ReadFile_def rd Some)
    from rep o have rep': "reportDiffs_loop (dmp_Diff L t new) [] 0 = Some (sb, ed)" by simp
    show ?thesis
      by (simp add: diffURL_def legacy_diffURL_def fetch r1 r2 writeState_def
          legacy_writeState_def path lp os_MkdirAll_def os_WriteFile_def mk wr emit_def Let_def
          reportDiffs_call_def reportDiffs_def rep')
  qed
qed

theorem legacy_diffURL_agrees_witness:
  "\<exists>diff edits s' s''.
     diffURL sample_lib sample_config (sample_env ''Hello'') ''http://a''
       (sample_state [sample_path \<mapsto> ''Help'']) = Some ((diff, edits, None), s') \<and>
     legacy_diffURL sample_lib sample_config (sample_env ''Hello'') ''http://a''
       (sample_state [sample_path \<mapsto> ''Help'']) = Some ((diff, edits, None), s'') \<and>
     files s' = files s''"
proof -
  have n: "legacy_stateFileName sample_lib ''http://a'' =
             ''f7651fae28a41b7d0af3dd8d1af2c3954c097043_http_a''"
    by (simp add: legacy_stateFileName_def sample_lib_def hexdigit_def
        specialRE_ReplaceAllLiteralString_def isWord_def)
  have h: "length (legacy_stateFileName sample_lib ''http://a'') \<le> 127"
    "getURLText sample_lib (sample_env ''Hello'') ''http://a'' = (''Hello'', None)"
    "statePath sample_lib sample_config (sample_env ''Hello'') ''http://a'' = Inr sample_path"
    "ReadFile_fault (sample_env ''Hello'') sample_path = None"
    "MkdirAll_fault (sample_env ''Hello'') (filepath_Dir sample_lib sample_path) = None"
    "WriteFile_fault (sample_env ''Hello'') sample_path = None"
    by (simp_all add: n sample_getURLText sample_statePath sample_env_faults)
  from legacy_diffURL_agrees [OF h] show ?thesis .
qed

end
